theory Spec2Isabelle
  imports Main "HOL-Library.Word"
begin

unbundle bit_operations_syntax

section \<open>Data model of the Razor IMU interface\<close>

text \<open>
  The module \<^verbatim>\<open>razorIMU.py\<close> reads a byte stream from a serial port and puts one
  dictionary per 52-byte frame into a queue. Bytes are 8-bit words, and the four bytes of
  a little-endian \<^verbatim>\<open><f\<close> field form a 32-bit IEEE-754 pattern.

  \<^verbatim>\<open>struct.unpack\<close> hands such a field over as a Python float, a double. Widening a
  binary32 to a double is exact and keeps sign, value and NaN payload apart, with one
  exception: a signalling NaN comes out as the quiet NaN of the same sign and payload.
  A float that was unpacked from a binary32 is therefore kept as the binary32 pattern of
  the same value, the pattern it packs back to; it is never a signalling NaN.
\<close>

type_synonym byte = "8 word"
type_synonym f32 = "32 word"
type_synonym pyfloat = "32 word"

text \<open>
  The exceptions the module can meet: an attribute looked up on \<^verbatim>\<open>None\<close> or on the
  initial \<^verbatim>\<open>""\<close> device, a failed serial read or open, \<^verbatim>\<open>struct.error\<close> on a short
  buffer, and \<^verbatim>\<open>ord\<close> on a byte string that is not of length one.
\<close>

datatype error = AttributeError | SerialException | StructError | TypeError

datatype 'a outcome = Returned 'a | Raised error

text \<open>
  The serial port object. \<open>rx\<close> holds the bytes the device delivers before the link
  breaks. With no timeout configured, \<^verbatim>\<open>read(n)\<close> gives exactly \<open>n\<close> bytes or
  raises; a read on a closed port raises as well.
\<close>

record serial =
  port :: string
  baudrate :: int
  is_open :: bool
  rx :: "byte list"

definition serial_read :: "nat \<Rightarrow> serial \<Rightarrow> (error + byte list) \<times> serial" where
  "serial_read n d =
     (if \<not> is_open d then (Inl SerialException, d)
      else if n \<le> length (rx d) then (Inr (take n (rx d)), d\<lparr>rx := drop n (rx d)\<rparr>)
      else (Inl SerialException, d\<lparr>rx := []\<rparr>))"

text \<open>Records of the \<^verbatim>\<open>logging\<close> module: level, message template, format argument.\<close>

datatype level = INFO | WARNING

datatype fmt_arg = NoArg | StrArg string | DeviceArg "serial option"

type_synonym log_record = "level \<times> string \<times> fmt_arg"

text \<open>The dictionary \<^verbatim>\<open>outMessage\<close>: \<^verbatim>\<open>Time\<close>, \<^verbatim>\<open>Index\<close> and the eight \<^verbatim>\<open>keys\<close>.\<close>

record message =
  Time :: string
  Index :: nat
  syncAA :: byte
  syncBB :: byte
  ID :: byte
  Acc :: "pyfloat list"
  Gyro :: "pyfloat list"
  Mag :: "pyfloat list"
  euler :: "pyfloat list"
  crc8maxim :: byte

text \<open>
  The object \<^verbatim>\<open>RazorIMU\<close>. \<open>device\<close> is \<open>None\<close> for the initial \<^verbatim>\<open>""\<close>, \<open>isOpen\<close>
  is \<open>False\<close> for the initial \<^verbatim>\<open>0\<close>. \<open>dataQueue\<close> is the unbounded
  \<^verbatim>\<open>queue.Queue\<close> of the caller, as the list of the messages put so far (oldest
  first). \<open>exitFlag\<close> is the state of the \<^verbatim>\<open>threading.Event\<close>, \<open>threadID\<close> the
  name of the started thread. The queue \<^verbatim>\<open>orders\<close> is created and never used; it is
  left out.
\<close>

record razor =
  name :: string
  device :: "serial option"
  isOpen :: bool
  baudRate :: int
  openError :: int
  logFile :: string
  dataQueue :: "message list option"
  exitFlag :: bool
  log :: "log_record list option"
  threadID :: "string option"

definition init :: "string \<Rightarrow> razor" where
  "init sensor_name =
     \<lparr>name = sensor_name, device = None, isOpen = False, baudRate = 500000,
      openError = 0, logFile = [], dataQueue = None, exitFlag = False,
      log = None, threadID = None\<rparr>"

section \<open>CRC-8/MAXIM\<close>

text \<open>
  Modelled from the spec: \<^verbatim>\<open>crc8_value\<close> calls the predefined \<^verbatim>\<open>crc-8-maxim\<close> of the
  library \<^verbatim>\<open>crcmod\<close>, which is not part of the sources. The spec gives the parameters:
  polynomial 0x31, initial value 0, input and output reflected, no final XOR. Reflected,
  the polynomial is 0x8C and the register shifts right.
\<close>

fun crc8_bits :: "nat \<Rightarrow> byte \<Rightarrow> byte" where
  "crc8_bits 0 c = c"
| "crc8_bits (Suc n) c =
     crc8_bits n (if bit c 0 then drop_bit 1 c XOR 0x8C else drop_bit 1 c)"

definition crc8_value :: "byte list \<Rightarrow> byte" where
  "crc8_value i = foldl (\<lambda>c b. crc8_bits 8 (c XOR b)) 0 i"

section \<open>Field decoding\<close>

text \<open>\<^verbatim>\<open>ord\<close> of a byte string.\<close>

definition ord_py :: "byte list \<Rightarrow> error + byte" where
  "ord_py bs = (case bs of [b] \<Rightarrow> Inr b | _ \<Rightarrow> Inl TypeError)"

text \<open>
  \<^verbatim>\<open>struct.unpack_from('<B', buffer, off)[0]\<close> and
  \<^verbatim>\<open>struct.unpack_from('<fff', buffer, off)\<close>; both raise on a buffer that is too short.
\<close>

definition le_f32 :: "byte \<Rightarrow> byte \<Rightarrow> byte \<Rightarrow> byte \<Rightarrow> f32" where
  "le_f32 b0 b1 b2 b3 =
     ucast b0 OR push_bit 8 (ucast b1) OR push_bit 16 (ucast b2) OR push_bit 24 (ucast b3)"

definition f32_at :: "byte list \<Rightarrow> nat \<Rightarrow> f32" where
  "f32_at buffer off =
     le_f32 (buffer ! off) (buffer ! (off + 1)) (buffer ! (off + 2)) (buffer ! (off + 3))"

text \<open>
  The conversion of a binary32 pattern to the Python float: a signalling NaN (exponent
  bits all ones, quiet bit 22 clear, some lower mantissa bit set) gets its quiet bit set,
  every other pattern is kept.
\<close>

definition is_snan :: "f32 \<Rightarrow> bool" where
  "is_snan w \<longleftrightarrow>
     w AND 0x7F800000 = 0x7F800000 \<and> w AND 0x00400000 = 0 \<and> w AND 0x003FFFFF \<noteq> 0"

definition py_float :: "f32 \<Rightarrow> pyfloat" where
  "py_float w = (if is_snan w then w OR 0x00400000 else w)"

definition unpack_B :: "byte list \<Rightarrow> nat \<Rightarrow> error + byte" where
  "unpack_B buffer off =
     (if off + 1 \<le> length buffer then Inr (buffer ! off) else Inl StructError)"

definition unpack_fff :: "byte list \<Rightarrow> nat \<Rightarrow> error + pyfloat list" where
  "unpack_fff buffer off =
     (if off + 12 \<le> length buffer
      then Inr [py_float (f32_at buffer off), py_float (f32_at buffer (off + 4)),
                py_float (f32_at buffer (off + 8))]
      else Inl StructError)"

definition unpack_frame ::
  "string \<Rightarrow> nat \<Rightarrow> byte \<Rightarrow> byte \<Rightarrow> byte list \<Rightarrow> error + message" where
  "unpack_frame my_time index sAA sBB buffer =
     (case unpack_B buffer 0 of Inl e \<Rightarrow> Inl e | Inr i \<Rightarrow>
     (case unpack_fff buffer 1 of Inl e \<Rightarrow> Inl e | Inr acc \<Rightarrow>
     (case unpack_fff buffer 13 of Inl e \<Rightarrow> Inl e | Inr gyro \<Rightarrow>
     (case unpack_fff buffer 25 of Inl e \<Rightarrow> Inl e | Inr mag \<Rightarrow>
     (case unpack_fff buffer 37 of Inl e \<Rightarrow> Inl e | Inr eul \<Rightarrow>
     (case unpack_B buffer 49 of Inl e \<Rightarrow> Inl e | Inr crc \<Rightarrow>
        Inr (\<lparr>Time = my_time, Index = index, syncAA = sAA, syncBB = sBB, ID = i,
             Acc = acc, Gyro = gyro, Mag = mag, euler = eul, crc8maxim = crc\<rparr>)))))))"

section \<open>Operations of the class\<close>

text \<open>
  A call \<^verbatim>\<open>self.log.info(...)\<close> or \<^verbatim>\<open>self.log.warning(...)\<close>, followed by the rest
  of the method. On the initial \<^verbatim>\<open>self.log = None\<close> the call raises.
\<close>

definition logging ::
  "level \<Rightarrow> string \<Rightarrow> fmt_arg \<Rightarrow> razor \<Rightarrow> (razor \<Rightarrow> 'a outcome \<times> razor) \<Rightarrow> 'a outcome \<times> razor" where
  "logging lv msg a s k =
     (case log s of
        None \<Rightarrow> (Raised AttributeError, s)
      | Some l \<Rightarrow> k (s\<lparr>log := Some (l @ [(lv, msg, a)])\<rparr>))"

text \<open>
  \<^verbatim>\<open>begin\<close>. The file system and the serial library are parameters: \<open>path_exists\<close>
  is \<^verbatim>\<open>os.path.exists\<close>, \<open>Serial\<close> is the constructor \<^verbatim>\<open>serial.Serial\<close>, which gives
  a port object or raises. \<^verbatim>\<open>logging.getLogger\<close> gives the logger of that name, with
  the records it already holds. Starting the thread is recorded in \<open>threadID\<close>; what
  the thread does is \<open>parseResponses\<close> below.
\<close>

definition begin_razor ::
  "(string \<Rightarrow> bool) \<Rightarrow> (string \<Rightarrow> int \<Rightarrow> error + serial) \<Rightarrow>
   razor \<Rightarrow> message list \<Rightarrow> string \<Rightarrow> int \<Rightarrow> bool outcome \<times> razor" where
  "begin_razor path_exists Serial s data_queue com_port baud_rate =
     (let s0 = s\<lparr>log := Some (case log s of None \<Rightarrow> [] | Some l \<Rightarrow> l)\<rparr> in
      if \<not> path_exists com_port then
        logging WARNING ''Port is not available: {0}'' (StrArg com_port) s0
          (\<lambda>s1. (Returned False, s1))
      else
        (case Serial com_port baud_rate of
           Inl e \<Rightarrow> (Raised e, s0)
         | Inr d \<Rightarrow>
             let s1 = s0\<lparr>device := Some d\<rparr> in
             if \<not> is_open d then
               logging WARNING ''Error opening port: {0}'' (StrArg com_port) s1
                 (\<lambda>s2. (Returned False, s2\<lparr>isOpen := False\<rparr>))
             else
               let s2 = s1\<lparr>baudRate := baud_rate, isOpen := True,
                           dataQueue := Some data_queue, threadID := Some ''Logger''\<rparr> in
               logging INFO ''Started Logger Thread'' NoArg s2
                 (\<lambda>s3. (Returned True, s3))))"

text \<open>\<^verbatim>\<open>device.read(n)\<close> on the object held in \<^verbatim>\<open>self.device\<close>.\<close>

definition device_read :: "nat \<Rightarrow> razor \<Rightarrow> (error + byte list) \<times> razor" where
  "device_read n s =
     (case device s of
        None \<Rightarrow> (Inl AttributeError, s)
      | Some d \<Rightarrow> (case serial_read n d of (r, d') \<Rightarrow> (r, s\<lparr>device := Some d'\<rparr>)))"

text \<open>
  One pass through the body of the \<^verbatim>\<open>while\<close> loop of \<^verbatim>\<open>parseResponses\<close>, after the
  flag has been polled. \<open>clock k\<close> is the formatted reading of \<^verbatim>\<open>datetime.now()\<close> at
  its \<open>k\<close>-th call; the loop calls it once per message, so \<open>k\<close> is \<open>index\<close>. The
  result is the exception raised, if any, the object and \<open>index\<close>.
\<close>

definition loop_body ::
  "(nat \<Rightarrow> string) \<Rightarrow> razor \<Rightarrow> nat \<Rightarrow> error option \<times> razor \<times> nat" where
  "loop_body clock s index =
     (case device_read 1 s of
        (Inl e, s1) \<Rightarrow> (Some e, s1, index)
      | (Inr b, s1) \<Rightarrow>
     (case ord_py b of
        Inl e \<Rightarrow> (Some e, s1, index)
      | Inr sAA \<Rightarrow>
     if sAA = 0xAA then
       (case device_read 1 s1 of
          (Inl e, s2) \<Rightarrow> (Some e, s2, index)
        | (Inr b', s2) \<Rightarrow>
       (case ord_py b' of
          Inl e \<Rightarrow> (Some e, s2, index)
        | Inr sBB \<Rightarrow>
       if sBB = 0xBB then
         (case device_read 50 s2 of
            (Inl e, s3) \<Rightarrow> (Some e, s3, index)
          | (Inr buffer, s3) \<Rightarrow>
         (case unpack_frame (clock index) index sAA sBB buffer of
            Inl e \<Rightarrow> (Some e, s3, index)
          | Inr outMessage \<Rightarrow>
         (case dataQueue s3 of
            None \<Rightarrow> (Some AttributeError, s3, index)
          | Some q \<Rightarrow> (None, s3\<lparr>dataQueue := Some (q @ [outMessage])\<rparr>, index + 1))))
       else (None, s2, index)))
     else (None, s1, index)))"

text \<open>The bytes the device still holds.\<close>

definition pending :: "razor \<Rightarrow> nat" where
  "pending s = (case device s of None \<Rightarrow> 0 | Some d \<Rightarrow> length (rx d))"

text \<open>
  The \<^verbatim>\<open>while not self.exitFlag.isSet()\<close> loop. The flag is set by \<^verbatim>\<open>shutdown\<close> in
  another thread; \<open>sched\<close> says when the loop gets to see it: with \<open>Some k\<close> the flag is
  set after \<open>k\<close> polls have found it clear and before the next one, with \<open>None\<close> it is
  never set from outside. Every pass that does not raise takes at least one byte from
  the device, which is why the loop over a finite \<open>rx\<close> ends.
\<close>

function parse_loop ::
  "(nat \<Rightarrow> string) \<Rightarrow> nat option \<Rightarrow> razor \<Rightarrow> nat \<Rightarrow> unit outcome \<times> razor" where
  "parse_loop clock sched s index =
     (let s0 = (if sched = Some 0 then s\<lparr>exitFlag := True\<rparr> else s) in
      if exitFlag s0 then (Returned (), s0)
      else
        (case loop_body clock s0 index of
           (Some e, s1, index1) \<Rightarrow> (Raised e, s1)
         | (None, s1, index1) \<Rightarrow>
             parse_loop clock (map_option (\<lambda>k. k - 1) sched) s1 index1))"
  by pat_completeness auto

lemma device_read_pending:
  "device_read n s = (Inr b, s1) \<Longrightarrow> pending s1 + n = pending s \<and> length b = n"
  by (auto simp: device_read_def serial_read_def pending_def split: option.splits if_splits)

lemma loop_body_pending:
  "loop_body clock s index = (None, s1, index1) \<Longrightarrow> pending s1 < pending s"
  by (auto simp: loop_body_def pending_def split: prod.splits sum.splits if_splits option.splits
      dest!: device_read_pending)

termination parse_loop
  by (relation "measure (\<lambda>(clock, sched, s, index). pending s)")
     (auto dest!: loop_body_pending [OF sym] split: if_splits)

text \<open>\<^verbatim>\<open>parseResponses\<close>, the target of the thread.\<close>

definition parseResponses :: "(nat \<Rightarrow> string) \<Rightarrow> nat option \<Rightarrow> razor \<Rightarrow> unit outcome \<times> razor" where
  "parseResponses clock sched s =
     logging INFO ''Entering Thread logger'' NoArg s (\<lambda>s1.
       if \<not> isOpen s1 then
         logging WARNING ''Port is not open: {0}'' (DeviceArg (device s1)) s1 (\<lambda>s2.
         logging INFO ''Exiting Thread logger'' NoArg s2 (\<lambda>s3. (Returned (), s3)))
       else
         (case parse_loop clock sched s1 0 of
            (Raised e, s2) \<Rightarrow> (Raised e, s2)
          | (Returned u, s2) \<Rightarrow>
              logging INFO ''Exiting Thread logger'' NoArg s2 (\<lambda>s3. (Returned (), s3))))"

text \<open>
  \<^verbatim>\<open>shutdown\<close>. \<^verbatim>\<open>threadID.join()\<close> waits for the thread and gives nothing back: an
  exception that ended the thread's target stays in the thread. The object passed in
  is therefore the one the thread has left behind.
\<close>

definition shutdown :: "razor \<Rightarrow> bool outcome \<times> razor" where
  "shutdown s =
     (let s1 = s\<lparr>exitFlag := True\<rparr> in
      case threadID s1 of
        None \<Rightarrow> (Raised AttributeError, s1)
      | Some t \<Rightarrow>
     (case device s1 of
        None \<Rightarrow> (Raised AttributeError, s1)
      | Some d \<Rightarrow>
          logging INFO ''Shutting down'' NoArg
            (s1\<lparr>device := Some (d\<lparr>is_open := False\<rparr>), isOpen := False\<rparr>)
            (\<lambda>s2. (Returned True, s2))))"

declare parse_loop.simps [simp del]

section \<open>Vocabulary of the properties\<close>

text \<open>
  The object as a successful \<^verbatim>\<open>begin\<close> leaves it: logger obtained, port \<open>d\<close> open and
  stored, queue \<open>q\<close> stored.
\<close>

definition started :: "razor \<Rightarrow> serial \<Rightarrow> message list \<Rightarrow> bool" where
  "started s d q \<longleftrightarrow>
     log s \<noteq> None \<and> isOpen s \<and> device s = Some d \<and> is_open d \<and> dataQueue s = Some q"

text \<open>The first \<open>n\<close> polls of the flag find it clear.\<close>

definition clear_polls :: "nat option \<Rightarrow> nat \<Rightarrow> bool" where
  "clear_polls sched n = (case sched of None \<Rightarrow> True | Some k \<Rightarrow> n \<le> k)"

text \<open>The 52 bytes of a frame on the wire: two sync bytes, payload, checksum.\<close>

definition frame_bytes :: "byte list \<times> byte \<Rightarrow> byte list" where
  "frame_bytes f = 0xAA # 0xBB # fst f @ [snd f]"

text \<open>
  The sender's side, following the wire format of the spec: a 32-bit value as four bytes,
  least significant first, and the 49-byte payload of identifier and four triples.
\<close>

definition spec_pack_f32 :: "f32 \<Rightarrow> byte list" where
  "spec_pack_f32 w = [ucast w, ucast (drop_bit 8 w), ucast (drop_bit 16 w), ucast (drop_bit 24 w)]"

definition spec_payload :: "byte \<Rightarrow> f32 list \<Rightarrow> f32 list \<Rightarrow> f32 list \<Rightarrow> f32 list \<Rightarrow> byte list" where
  "spec_payload sid acc gyro mag eul = sid # concat (map spec_pack_f32 (acc @ gyro @ mag @ eul))"

text \<open>Concrete data for the examples.\<close>

definition example_clock :: "nat \<Rightarrow> string" where
  "example_clock k = ''2016-12-22 10:00:00.000''"

definition example_port :: "bool \<Rightarrow> byte list \<Rightarrow> serial" where
  "example_port opened bs =
     \<lparr>port = ''/dev/ttyUSB0'', baudrate = 500000, is_open = opened, rx = bs\<rparr>"

definition example_razor :: "byte list \<Rightarrow> razor" where
  "example_razor bs =
     \<lparr>name = ''RazorIMU 1'', device = Some (example_port True bs), isOpen = True,
      baudRate = 500000, openError = 0, logFile = [], dataQueue = Some [], exitFlag = False,
      log = Some [], threadID = Some ''Logger''\<rparr>"

definition example_payload :: "byte list" where
  "example_payload = replicate 49 0"

definition example_values_payload :: "byte list" where
  "example_values_payload =
     [0x07,
      0x00, 0x00, 0x80, 0x3F,  0x00, 0x00, 0x00, 0x40,  0x00, 0x00, 0x40, 0x40,
      0x00, 0x00, 0x80, 0xBF,  0x00, 0x00, 0x00, 0x3F,  0x00, 0x00, 0x00, 0x00,
      0x00, 0x00, 0x28, 0x42,  0x00, 0x00, 0x28, 0xC2,  0xCD, 0xCC, 0xCC, 0x3D,
      0xDB, 0x0F, 0x49, 0x40,  0x00, 0x00, 0x80, 0x7F,  0x00, 0x00, 0xC0, 0x7F]"

definition example_snan_payload :: "byte list" where
  "example_snan_payload = [0x00, 0x01, 0x00, 0x80, 0x7F] @ replicate 44 0"

definition example_frame :: "byte list" where
  "example_frame = frame_bytes (example_payload, 7)"

definition example_message :: message where
  "example_message =
     \<lparr>Time = example_clock 0, Index = 0, syncAA = 0xAA, syncBB = 0xBB, ID = 0,
      Acc = [0, 0, 0], Gyro = [0, 0, 0], Mag = [0, 0, 0], euler = [0, 0, 0], crc8maxim = 7\<rparr>"

section \<open>One pass of the loop\<close>

lemma unpack_frame_50:
  "length buffer = 50 \<Longrightarrow>
   unpack_frame t i a b buffer =
     Inr \<lparr>Time = t, Index = i, syncAA = a, syncBB = b, ID = buffer ! 0,
          Acc = map py_float [f32_at buffer 1, f32_at buffer 5, f32_at buffer 9],
          Gyro = map py_float [f32_at buffer 13, f32_at buffer 17, f32_at buffer 21],
          Mag = map py_float [f32_at buffer 25, f32_at buffer 29, f32_at buffer 33],
          euler = map py_float [f32_at buffer 37, f32_at buffer 41, f32_at buffer 45],
          crc8maxim = buffer ! 49\<rparr>"
  by (simp add: unpack_frame_def unpack_B_def unpack_fff_def)

lemma device_read_ok:
  "device s = Some d \<Longrightarrow> is_open d \<Longrightarrow> rx d = bs @ rest \<Longrightarrow> length bs = n \<Longrightarrow>
   device_read n s = (Inr bs, s\<lparr>device := Some (d\<lparr>rx := rest\<rparr>)\<rparr>)"
  by (simp add: device_read_def serial_read_def)

lemma device_read_short:
  "device s = Some d \<Longrightarrow> is_open d \<Longrightarrow> length (rx d) < n \<Longrightarrow>
   device_read n s = (Inl SerialException, s\<lparr>device := Some (d\<lparr>rx := []\<rparr>)\<rparr>)"
  by (simp add: device_read_def serial_read_def)

lemma device_read_Inr:
  assumes "device_read n s = (Inr bs, s1)"
  shows "\<exists>d rest. device s = Some d \<and> is_open d \<and> rx d = bs @ rest \<and> length bs = n \<and>
     s1 = s\<lparr>device := Some (d\<lparr>rx := rest\<rparr>)\<rparr>"
proof -
  from assms obtain d where d: "device s = Some d" "is_open d" "n \<le> length (rx d)"
    "bs = take n (rx d)" "s1 = s\<lparr>device := Some (d\<lparr>rx := drop n (rx d)\<rparr>)\<rparr>"
    by (auto simp: device_read_def serial_read_def split: option.splits if_splits)
  then have "rx d = bs @ drop n (rx d)" "length bs = n"
    by simp_all
  with d show ?thesis
    by blast
qed

lemma device_read_Inl:
  assumes "device_read n s = (Inl e, s1)"
  shows "\<exists>dv. s1 = s\<lparr>device := dv\<rparr> \<and>
           (case device s of None \<Rightarrow> dv = None
            | Some d \<Rightarrow> e = SerialException \<and> (\<exists>r. dv = Some (d\<lparr>rx := r\<rparr>)))"
proof (cases "device s")
  case None
  with assms have "s1 = s\<lparr>device := None\<rparr>"
    by (simp add: device_read_def)
  with None show ?thesis by simp
next
  case (Some d)
  from assms Some have "e = SerialException \<and>
      (s1 = s\<lparr>device := Some (d\<lparr>rx := rx d\<rparr>)\<rparr> \<or> s1 = s\<lparr>device := Some (d\<lparr>rx := []\<rparr>)\<rparr>)"
    by (simp add: device_read_def serial_read_def split: if_splits)
  then have "\<exists>r. e = SerialException \<and> s1 = s\<lparr>device := Some (d\<lparr>rx := r\<rparr>)\<rparr>"
    by blast
  then obtain r where "e = SerialException" "s1 = s\<lparr>device := Some (d\<lparr>rx := r\<rparr>)\<rparr>"
    by blast
  with Some show ?thesis
    by (intro exI [of _ "Some (d\<lparr>rx := r\<rparr>)"]) (simp, blast)
qed

lemma loop_body_noise:
  assumes "device s = Some d" "is_open d" "rx d = b # rest" "b \<noteq> 0xAA"
  shows "loop_body clock s index = (None, s\<lparr>device := Some (d\<lparr>rx := rest\<rparr>)\<rparr>, index)"
  using assms device_read_ok [of s d "[b]" rest 1]
  by (simp add: loop_body_def ord_py_def)

lemma loop_body_false_start:
  assumes "device s = Some d" "is_open d" "rx d = 0xAA # b # rest" "b \<noteq> 0xBB"
  shows "loop_body clock s index = (None, s\<lparr>device := Some (d\<lparr>rx := rest\<rparr>)\<rparr>, index)"
  using assms device_read_ok [of s d "[0xAA]" "b # rest" 1]
    device_read_ok [of "s\<lparr>device := Some (d\<lparr>rx := b # rest\<rparr>)\<rparr>" "d\<lparr>rx := b # rest\<rparr>" "[b]" rest 1]
  by (simp add: loop_body_def ord_py_def)

lemma loop_body_frame:
  assumes "device s = Some d" "is_open d" "rx d = 0xAA # 0xBB # body @ rest" "length body = 50"
    "dataQueue s = Some q" "unpack_frame (clock index) index 0xAA 0xBB body = Inr m"
  shows "loop_body clock s index =
    (None, s\<lparr>device := Some (d\<lparr>rx := rest\<rparr>), dataQueue := Some (q @ [m])\<rparr>, Suc index)"
  using assms device_read_ok [of s d "[0xAA]" "0xBB # body @ rest" 1]
    device_read_ok [of "s\<lparr>device := Some (d\<lparr>rx := 0xBB # body @ rest\<rparr>)\<rparr>" "d\<lparr>rx := 0xBB # body @ rest\<rparr>" "[0xBB]" "body @ rest" 1]
    device_read_ok [of "s\<lparr>device := Some (d\<lparr>rx := body @ rest\<rparr>)\<rparr>" "d\<lparr>rx := body @ rest\<rparr>" "body" "rest" 50]
  by (simp add: loop_body_def ord_py_def)

lemma loop_body_cases:
  assumes "loop_body clock s index = (r, s1, index1)"
  shows "(dataQueue s1 = dataQueue s \<and> index1 = index) \<or>
         (r = None \<and> index1 = Suc index \<and>
          (\<exists>d d1 body q m. device s = Some d \<and> device s1 = Some d1 \<and>
             rx d = 0xAA # 0xBB # body @ rx d1 \<and> length body = 50 \<and>
             dataQueue s = Some q \<and> unpack_frame (clock index) index 0xAA 0xBB body = Inr m \<and>
             dataQueue s1 = Some (q @ [m])))"
  using assms unfolding loop_body_def
  by (auto simp: ord_py_def 
         split: prod.splits sum.splits if_splits option.splits list.splits
         dest!: device_read_Inr device_read_Inl)

lemma loop_body_other_fields:
  assumes "loop_body clock s index = (r, s1, index1)"
  shows "exitFlag s1 = exitFlag s \<and> log s1 = log s \<and> threadID s1 = threadID s \<and>
         isOpen s1 = isOpen s \<and> name s1 = name s \<and> baudRate s1 = baudRate s \<and>
         openError s1 = openError s \<and> logFile s1 = logFile s"
  using assms unfolding loop_body_def
  by (auto simp: ord_py_def 
         split: prod.splits sum.splits if_splits option.splits list.splits
         dest!: device_read_Inr device_read_Inl)

lemma exitFlag_update_same: "exitFlag s \<Longrightarrow> s\<lparr>exitFlag := True\<rparr> = s"
  by simp

lemma parse_loop_set: "exitFlag s \<Longrightarrow> parse_loop clock sched s index = (Returned (), s)"
  by (subst parse_loop.simps) simp

lemma parse_loop_cancel: "parse_loop clock (Some 0) s index = (Returned (), s\<lparr>exitFlag := True\<rparr>)"
  by (subst parse_loop.simps) simp

lemma parse_loop_step:
  "\<not> exitFlag s \<Longrightarrow> sched \<noteq> Some 0 \<Longrightarrow> loop_body clock s index = (None, s1, index1) \<Longrightarrow>
   parse_loop clock sched s index = parse_loop clock (map_option (\<lambda>k. k - 1) sched) s1 index1"
  by (subst parse_loop.simps) simp

lemma parse_loop_raise:
  "\<not> exitFlag s \<Longrightarrow> sched \<noteq> Some 0 \<Longrightarrow> loop_body clock s index = (Some e, s1, index1) \<Longrightarrow>
   parse_loop clock sched s index = (Raised e, s1)"
  by (subst parse_loop.simps) simp

section \<open>Little-endian fields\<close>

lemma le_f32_spec_pack:
  "le_f32 (ucast w) (ucast (drop_bit 8 w)) (ucast (drop_bit 16 w)) (ucast (drop_bit 24 w)) = w"
proof (rule bit_word_eqI)
  fix n :: nat
  assume n: "n < LENGTH(32)"
  have a: "8 \<le> n \<Longrightarrow> 8 + (n - 8) = n" and b: "16 \<le> n \<Longrightarrow> 16 + (n - 16) = n"
    and c: "24 \<le> n \<Longrightarrow> 24 + (n - 24) = n"
    by simp_all
  consider "n < 8" | "8 \<le> n" "n < 16" | "16 \<le> n" "n < 24" | "24 \<le> n" "n < 32"
    using n by fastforce
  then show "bit (le_f32 (ucast w) (ucast (drop_bit 8 w)) (ucast (drop_bit 16 w))
      (ucast (drop_bit 24 w))) n = bit w n"
    by cases (auto simp: le_f32_def bit_simps a b c)
qed

lemma byte_high_bit:
  "\<not> bit (b :: byte) (8 + n)" "\<not> bit (b :: byte) (16 + n)" "\<not> bit (b :: byte) (24 + n)"
  by (auto dest: bit_imp_le_length)

lemma spec_pack_le_f32: "spec_pack_f32 (le_f32 b0 b1 b2 b3) = [b0, b1, b2, b3]"
proof -
  have "ucast (le_f32 b0 b1 b2 b3) = b0"
    by (rule bit_word_eqI) (auto simp: le_f32_def bit_simps)
  moreover have "ucast (drop_bit 8 (le_f32 b0 b1 b2 b3)) = b1"
    by (rule bit_word_eqI) (auto simp: le_f32_def bit_simps byte_high_bit)
  moreover have "ucast (drop_bit 16 (le_f32 b0 b1 b2 b3)) = b2"
    by (rule bit_word_eqI) (auto simp: le_f32_def bit_simps byte_high_bit)
  moreover have "ucast (drop_bit 24 (le_f32 b0 b1 b2 b3)) = b3"
    by (rule bit_word_eqI) (auto simp: le_f32_def bit_simps byte_high_bit)
  ultimately show ?thesis
    by (simp add: spec_pack_f32_def)
qed

lemma length3: "length xs = 3 \<longleftrightarrow> (\<exists>a b c. xs = [a, b, c])"
  by (auto simp: length_Suc_conv numeral_3_eq_3)

lemma unpack_spec_payload:
  assumes "length acc = 3" "length gyro = 3" "length mag = 3" "length eul = 3"
  shows "unpack_frame t i a b (spec_payload sid acc gyro mag eul @ [crc]) =
     Inr \<lparr>Time = t, Index = i, syncAA = a, syncBB = b, ID = sid,
          Acc = map py_float acc, Gyro = map py_float gyro, Mag = map py_float mag,
          euler = map py_float eul, crc8maxim = crc\<rparr>"
proof -
  from assms obtain a0 a1 a2 g0 g1 g2 m0 m1 m2 e0 e1 e2 where
    "acc = [a0, a1, a2]" "gyro = [g0, g1, g2]" "mag = [m0, m1, m2]" "eul = [e0, e1, e2]"
    unfolding length3 by blast
  then show ?thesis
    by (simp add: unpack_frame_def unpack_B_def unpack_fff_def spec_payload_def spec_pack_f32_def
        f32_at_def le_f32_spec_pack)
qed

lemma length_spec_payload:
  assumes "length acc = 3" "length gyro = 3" "length mag = 3" "length eul = 3"
  shows "length (spec_payload sid acc gyro mag eul) = 49"
proof -
  from assms obtain a0 a1 a2 g0 g1 g2 m0 m1 m2 e0 e1 e2 where
    "acc = [a0, a1, a2]" "gyro = [g0, g1, g2]" "mag = [m0, m1, m2]" "eul = [e0, e1, e2]"
    unfolding length3 by blast
  then show ?thesis
    by (simp add: spec_payload_def spec_pack_f32_def)
qed

lemma py_float_no_snan: "\<forall>w \<in> set ws. \<not> is_snan w \<Longrightarrow> map py_float ws = ws"
  by (induction ws) (simp_all add: py_float_def)

text \<open>
  The conversion on some patterns: two signalling NaNs, a quiet NaN, infinity and 1.0.
  Its result is never a signalling NaN.
\<close>

lemma py_float_values:
  "py_float 0x7F800001 = 0x7FC00001" "py_float 0xFFA00000 = 0xFFE00000"
  "py_float 0x7FC00001 = 0x7FC00001" "py_float 0x7F800000 = 0x7F800000"
  "py_float 0x3F800000 = 0x3F800000"
  by code_simp+

lemma py_float_quiet: "\<not> is_snan (py_float w)"
proof (cases "is_snan w")
  case True
  have "(w OR 0x00400000) AND 0x00400000 = (0x00400000 :: f32)"
    by (simp add: word_ao_absorbs)
  then have "\<not> is_snan (w OR 0x00400000)"
    by (simp add: is_snan_def)
  with True show ?thesis
    by (simp add: py_float_def)
next
  case False
  then show ?thesis
    by (simp add: py_float_def)
qed

lemma list49: "length p = 49 \<Longrightarrow> p = map ((!) p) [0..<49]"
  by (metis map_nth)

lemma payload_is_encoding:
  assumes "length p = 49"
  shows "p = spec_payload (p ! 0) [f32_at p 1, f32_at p 5, f32_at p 9]
           [f32_at p 13, f32_at p 17, f32_at p 21] [f32_at p 25, f32_at p 29, f32_at p 33]
           [f32_at p 37, f32_at p 41, f32_at p 45]"
proof -
  have u: "[0..<49] = [0..<17] @ [17..<33] @ [33..<49]"
    by code_simp
  have u1: "[0..<17] = [0, 1, 2, 3, 4, 5, 6, 7, 8, 9, 10, 11, 12, 13, 14, 15, 16 :: nat]"
    by code_simp
  have u2: "[17..<33] = [17, 18, 19, 20, 21, 22, 23, 24, 25, 26, 27, 28, 29, 30, 31, 32 :: nat]"
    by code_simp
  have u3: "[33..<49] = [33, 34, 35, 36, 37, 38, 39, 40, 41, 42, 43, 44, 45, 46, 47, 48 :: nat]"
    by code_simp
  have s4: "Suc (Suc (Suc (Suc 0))) = 4"
    by simp
  have "spec_payload (p ! 0) [f32_at p 1, f32_at p 5, f32_at p 9]
           [f32_at p 13, f32_at p 17, f32_at p 21] [f32_at p 25, f32_at p 29, f32_at p 33]
           [f32_at p 37, f32_at p 41, f32_at p 45] = map ((!) p) [0..<49]"
    unfolding u u1 u2 u3
    by (simp add: spec_payload_def f32_at_def spec_pack_le_f32 numeral_2_eq_2 numeral_3_eq_3 s4)
  with list49 [OF assms] show ?thesis
    by simp
qed

section \<open>The loop over a stream\<close>

lemma logging_queue: "dataQueue (snd (logging lv msg a s (\<lambda>s'. (r, s')))) = dataQueue s"
  by (simp add: logging_def split: option.splits)

lemma parseResponses_queue:
  assumes "log s = Some l" "isOpen s"
  shows "dataQueue (snd (parseResponses clock sched s)) =
    dataQueue (snd (parse_loop clock sched
      (s\<lparr>log := Some (l @ [(INFO, ''Entering Thread logger'', NoArg)])\<rparr>) 0))"
  using assms
  by (simp add: parseResponses_def logging_def split: prod.splits outcome.splits option.splits)

lemma parse_loop_short:
  "pending s < 52 \<Longrightarrow> dataQueue (snd (parse_loop clock sched s index)) = dataQueue s"
proof (induction "pending s" arbitrary: s index sched rule: less_induct)
  case less
  show ?case
  proof (cases "exitFlag s \<or> sched = Some 0")
    case True
    then show ?thesis
      by (auto simp: parse_loop_set parse_loop_cancel)
  next
    case False
    obtain r s1 i1 where b: "loop_body clock s index = (r, s1, i1)"
      by (cases "loop_body clock s index")
    from loop_body_cases [OF b] less.prems have q: "dataQueue s1 = dataQueue s"
      by (auto simp: pending_def)
    show ?thesis
    proof (cases r)
      case None
      with b have "pending s1 < pending s"
        by (auto dest: loop_body_pending)
      with less.hyps [of s1] less.prems q None b False show ?thesis
        by (simp add: parse_loop_step)
    next
      case (Some e)
      with b False q show ?thesis
        by (simp add: parse_loop_raise)
    qed
  qed
qed

lemma clear_polls_Suc:
  "clear_polls sched (Suc n) \<Longrightarrow> sched \<noteq> Some 0 \<and> clear_polls (map_option (\<lambda>k. k - 1) sched) n"
  by (cases sched) (auto simp: clear_polls_def)

lemma sched_minus: 
  "map_option (\<lambda>k. k - n) (map_option (\<lambda>k. k - Suc 0) sched) =
   map_option (\<lambda>k. k - Suc n) (sched :: nat option)"
  by (cases sched) auto

lemma sched_minus_0: "map_option (\<lambda>k. k - 0) sched = (sched :: nat option)"
  by (cases sched) auto

lemma parse_loop_frames:
  assumes "\<forall>f \<in> set frames. length (fst f) = 49" "device s = Some d" "is_open d"
    "rx d = concat (map frame_bytes frames) @ rest" "dataQueue s = Some q" "\<not> exitFlag s"
    "clear_polls sched (length frames)"
  shows "\<exists>msgs. map Inr msgs =
            map (\<lambda>(i, f). unpack_frame (clock i) i 0xAA 0xBB (fst f @ [snd f])) (enumerate index frames) \<and>
          parse_loop clock sched s index =
          parse_loop clock (map_option (\<lambda>k. k - length frames) sched)
            (s\<lparr>device := Some (d\<lparr>rx := rest\<rparr>), dataQueue := Some (q @ msgs)\<rparr>)
            (index + length frames)"
  using assms
proof (induction frames arbitrary: s d q index sched)
  case Nil
  then have "s\<lparr>device := Some (d\<lparr>rx := rest\<rparr>), dataQueue := Some q\<rparr> = s"
    by simp
  then show ?case
    by (intro exI [of _ "[]"]) (simp add: option.map_ident)
next
  case (Cons f frames)
  let ?body = "fst f @ [snd f]"
  let ?tail = "concat (map frame_bytes frames) @ rest"
  from Cons.prems have len: "length ?body = 50"
    by simp
  from unpack_frame_50 [OF len] obtain m where
    m: "unpack_frame (clock index) index 0xAA 0xBB ?body = Inr m"
    by blast
  let ?d1 = "d\<lparr>rx := ?tail\<rparr>"
  let ?s1 = "s\<lparr>device := Some ?d1, dataQueue := Some (q @ [m])\<rparr>"
  have "frame_bytes f = 0xAA # 0xBB # ?body"
    by (simp add: frame_bytes_def)
  with Cons.prems have rx: "rx d = 0xAA # 0xBB # ?body @ ?tail"
    by simp
  from Cons.prems have "loop_body clock s index = (None, ?s1, Suc index)"
    using loop_body_frame [of s d ?body ?tail q clock index m] rx len m by simp
  moreover from Cons.prems have sch: "sched \<noteq> Some 0" "clear_polls (map_option (\<lambda>k. k - 1) sched) (length frames)"
    using clear_polls_Suc [of sched "length frames"] by simp_all
  ultimately have step: "parse_loop clock sched s index =
      parse_loop clock (map_option (\<lambda>k. k - 1) sched) ?s1 (Suc index)"
    using Cons.prems by (simp add: parse_loop_step)
  from Cons.prems have "\<exists>msgs. map Inr msgs =
            map (\<lambda>(i, f). unpack_frame (clock i) i 0xAA 0xBB (fst f @ [snd f])) (enumerate (Suc index) frames) \<and>
          parse_loop clock (map_option (\<lambda>k. k - 1) sched) ?s1 (Suc index) =
          parse_loop clock (map_option (\<lambda>k. k - length frames) (map_option (\<lambda>k. k - 1) sched))
            (?s1\<lparr>device := Some (?d1\<lparr>rx := rest\<rparr>), dataQueue := Some ((q @ [m]) @ msgs)\<rparr>)
            (Suc index + length frames)"
    by (intro Cons.IH [of ?s1 ?d1 "q @ [m]" "map_option (\<lambda>k. k - 1) sched" "Suc index"] sch) simp_all
  then obtain msgs where msgs: "map Inr msgs =
            map (\<lambda>(i, f). unpack_frame (clock i) i 0xAA 0xBB (fst f @ [snd f])) (enumerate (Suc index) frames)"
      "parse_loop clock (map_option (\<lambda>k. k - 1) sched) ?s1 (Suc index) =
          parse_loop clock (map_option (\<lambda>k. k - length frames) (map_option (\<lambda>k. k - 1) sched))
            (?s1\<lparr>device := Some (?d1\<lparr>rx := rest\<rparr>), dataQueue := Some ((q @ [m]) @ msgs)\<rparr>)
            (Suc index + length frames)"
    by blast
  show ?case
    using msgs m step by (intro exI [of _ "m # msgs"]) (simp add: sched_minus)
qed

lemma unpack_frame_Index: "unpack_frame t i a b buffer = Inr m \<Longrightarrow> Index m = i"
  by (auto simp: unpack_frame_def split: sum.splits)

lemma frames_queue:
  assumes "started s d q" "\<not> exitFlag s" "clear_polls sched (length frames)"
    "\<forall>f \<in> set frames. length (fst f) = 49" "rx d = concat (map frame_bytes frames)"
  shows "\<exists>msgs. dataQueue (snd (parseResponses clock sched s)) = Some (q @ msgs) \<and>
           map Inr msgs =
             map (\<lambda>(i, f). unpack_frame (clock i) i 0xAA 0xBB (fst f @ [snd f])) (enumerate 0 frames)"
proof -
  from assms(1) obtain l where l: "log s = Some l" and o: "isOpen s"
    and d: "device s = Some d" "is_open d" and q: "dataQueue s = Some q"
    by (auto simp: started_def)
  let ?s = "s\<lparr>log := Some (l @ [(INFO, ''Entering Thread logger'', NoArg)])\<rparr>"
  have "\<exists>msgs. map Inr msgs =
            map (\<lambda>(i, f). unpack_frame (clock i) i 0xAA 0xBB (fst f @ [snd f])) (enumerate 0 frames) \<and>
          parse_loop clock sched ?s 0 =
          parse_loop clock (map_option (\<lambda>k. k - length frames) sched)
            (?s\<lparr>device := Some (d\<lparr>rx := []\<rparr>), dataQueue := Some (q @ msgs)\<rparr>)
            (0 + length frames)"
    using assms d q by (intro parse_loop_frames) simp_all
  then obtain msgs where msgs: "map Inr msgs =
            map (\<lambda>(i, f). unpack_frame (clock i) i 0xAA 0xBB (fst f @ [snd f])) (enumerate 0 frames)"
    and pl: "parse_loop clock sched ?s 0 =
          parse_loop clock (map_option (\<lambda>k. k - length frames) sched)
            (?s\<lparr>device := Some (d\<lparr>rx := []\<rparr>), dataQueue := Some (q @ msgs)\<rparr>)
            (0 + length frames)"
    by blast
  have "dataQueue (snd (parse_loop clock sched ?s 0)) = Some (q @ msgs)"
    unfolding pl by (subst parse_loop_short) (simp_all add: pending_def)
  with parseResponses_queue [OF l o] msgs show ?thesis
    by auto
qed

lemma parse_loop_noise:
  assumes "device s = Some d" "is_open d" "rx d = b # rest" "b \<noteq> 0xAA"
    "\<not> exitFlag s" "sched \<noteq> Some 0"
  shows "parse_loop clock sched s index =
    parse_loop clock (map_option (\<lambda>k. k - 1) sched) (s\<lparr>device := Some (d\<lparr>rx := rest\<rparr>)\<rparr>) index"
  using assms loop_body_noise [of s d b rest clock index] by (simp add: parse_loop_step)

lemma parse_loop_false_start:
  assumes "device s = Some d" "is_open d" "rx d = 0xAA # b # rest" "b \<noteq> 0xBB"
    "\<not> exitFlag s" "sched \<noteq> Some 0"
  shows "parse_loop clock sched s index =
    parse_loop clock (map_option (\<lambda>k. k - 1) sched) (s\<lparr>device := Some (d\<lparr>rx := rest\<rparr>)\<rparr>) index"
  using assms loop_body_false_start [of s d b rest clock index] by (simp add: parse_loop_step)

lemma single_frame_queue:
  assumes "started s d q" "\<not> exitFlag s" "clear_polls sched 1" "length payload = 49"
    "rx d = frame_bytes (payload, crc)"
    "unpack_frame (clock 0) 0 0xAA 0xBB (payload @ [crc]) = Inr m"
  shows "dataQueue (snd (parseResponses clock sched s)) = Some (q @ [m])"
proof -
  from assms(1-5) have "\<exists>msgs. dataQueue (snd (parseResponses clock sched s)) = Some (q @ msgs) \<and>
           map Inr msgs =
             map (\<lambda>(i, f). unpack_frame (clock i) i 0xAA 0xBB (fst f @ [snd f]))
               (enumerate 0 [(payload, crc)])"
    by (intro frames_queue [of s d]) simp_all
  with assms(6) show ?thesis
    by auto
qed

section \<open>Checksum values and the example data\<close>

text \<open>
  The model of the checksum gives the published check value of CRC-8/MAXIM on the ASCII
  digits \<^verbatim>\<open>123456789\<close>, and 0 on a payload of zero bytes.
\<close>

lemma crc8_bits_zero: "crc8_bits n 0 = 0"
  by (induction n) simp_all

lemma crc8_value_zeros: "crc8_value (replicate n 0) = 0"
proof -
  have "foldl (\<lambda>c b. crc8_bits 8 (c XOR b)) 0 (replicate n 0) = 0"
    by (induction n) (simp_all add: crc8_bits_zero)
  then show ?thesis
    by (simp add: crc8_value_def)
qed

lemma crc8_byte:
  "crc8_bits 8 c = crc8_bits 0 (crc8_bits (Suc 0) (crc8_bits (Suc 0) (crc8_bits (Suc 0)
     (crc8_bits (Suc 0) (crc8_bits (Suc 0) (crc8_bits (Suc 0) (crc8_bits (Suc 0)
     (crc8_bits (Suc 0) c))))))))"
proof -
  have "(8 :: nat) = Suc (Suc (Suc (Suc (Suc (Suc (Suc (Suc 0)))))))"
    by simp
  then show ?thesis
    by (simp only: crc8_bits.simps)
qed

lemma crc8_check: "crc8_value [0x31, 0x32, 0x33, 0x34, 0x35, 0x36, 0x37, 0x38, 0x39] = 0xA1"
  by (simp add: crc8_value_def crc8_byte)

lemma example_started: "started (example_razor bs) (example_port True bs) []"
  by (simp add: started_def example_razor_def example_port_def)

lemma example_flag: "\<not> exitFlag (example_razor bs)"
  by (simp add: example_razor_def)

lemma example_rx: "rx (example_port True bs) = bs"
  by (simp add: example_port_def)

lemma example_length: "length example_payload = 49"
  by (simp add: example_payload_def)

lemma example_loop_body:
  "loop_body example_clock (example_razor example_frame) 0 =
     (None, (example_razor example_frame)\<lparr>device := Some (example_port True []),
        dataQueue := Some [example_message]\<rparr>, 1)"
  by code_simp

text \<open>What a successful \<^verbatim>\<open>begin\<close> establishes.\<close>

lemma begin_started:
  assumes "path_exists com_port" "Serial com_port baud_rate = Inr d" "is_open d"
  shows "\<exists>s'. begin_razor path_exists Serial s data_queue com_port baud_rate = (Returned True, s') \<and>
           started s' d data_queue \<and> threadID s' = Some ''Logger'' \<and> exitFlag s' = exitFlag s"
  using assms by (simp add: begin_razor_def logging_def Let_def started_def)

section \<open>Round-trip decode (C1)\<close>

lemma decode_spec_payload:
  assumes "started s d q" "\<not> exitFlag s" "clear_polls sched 1"
    "length acc = 3" "length gyro = 3" "length mag = 3" "length eul = 3"
    "rx d = frame_bytes (spec_payload sid acc gyro mag eul, crc)"
  shows "dataQueue (snd (parseResponses clock sched s)) =
     Some (q @ [\<lparr>Time = clock 0, Index = 0, syncAA = 0xAA, syncBB = 0xBB, ID = sid,
                  Acc = map py_float acc, Gyro = map py_float gyro, Mag = map py_float mag,
                  euler = map py_float eul, crc8maxim = crc\<rparr>])"
  using assms(1-3) length_spec_payload [OF assms(4-7)] assms(8)
    unpack_spec_payload [OF assms(4-7)]
  by (rule single_frame_queue)

text \<open>
  C1, as amended. The decoder runs on a started object whose flag is clear at the first
  poll, and the port delivers \<^verbatim>\<open>0xAA\<close>, \<^verbatim>\<open>0xBB\<close>, a 49-byte payload and a checksum byte.
  Every such payload is the little-endian encoding of an identifier and four triples of
  binary32 values (identifier at offset 0, triples at offsets 1, 13, 25 and 37). Whatever
  values encode the payload, exactly one message is put into the queue: it has index 0,
  the two sync bytes, the identifier, the appended byte as its checksum, and the four
  triples as Python floats, that is, with each signalling NaN replaced by its quiet
  NaN. When no encoded value is a signalling NaN, the fields are exactly the encoded
  values.
\<close>

theorem roundtrip_decode:
  assumes "started s d q" "\<not> exitFlag s" "clear_polls sched 1"
    "length payload = 49" "rx d = frame_bytes (payload, crc)"
  shows "(\<exists>sid acc gyro mag eul.
            length acc = 3 \<and> length gyro = 3 \<and> length mag = 3 \<and> length eul = 3 \<and>
            payload = spec_payload sid acc gyro mag eul) \<and>
         (\<forall>sid acc gyro mag eul.
            length acc = 3 \<and> length gyro = 3 \<and> length mag = 3 \<and> length eul = 3 \<and>
            payload = spec_payload sid acc gyro mag eul \<longrightarrow>
            dataQueue (snd (parseResponses clock sched s)) =
              Some (q @ [\<lparr>Time = clock 0, Index = 0, syncAA = 0xAA, syncBB = 0xBB, ID = sid,
                           Acc = map py_float acc, Gyro = map py_float gyro,
                           Mag = map py_float mag, euler = map py_float eul,
                           crc8maxim = crc\<rparr>])) \<and>
         (\<forall>sid acc gyro mag eul.
            length acc = 3 \<and> length gyro = 3 \<and> length mag = 3 \<and> length eul = 3 \<and>
            payload = spec_payload sid acc gyro mag eul \<and>
            (\<forall>w \<in> set (acc @ gyro @ mag @ eul). \<not> is_snan w) \<longrightarrow>
            dataQueue (snd (parseResponses clock sched s)) =
              Some (q @ [\<lparr>Time = clock 0, Index = 0, syncAA = 0xAA, syncBB = 0xBB, ID = sid,
                           Acc = acc, Gyro = gyro, Mag = mag, euler = eul,
                           crc8maxim = crc\<rparr>]))"
proof (intro conjI allI impI)
  show "\<exists>sid acc gyro mag eul.
      length acc = 3 \<and> length gyro = 3 \<and> length mag = 3 \<and> length eul = 3 \<and>
      payload = spec_payload sid acc gyro mag eul"
    using payload_is_encoding [OF assms(4)]
    by (intro exI [of _ "payload ! 0"]
        exI [of _ "[f32_at payload 1, f32_at payload 5, f32_at payload 9]"]
        exI [of _ "[f32_at payload 13, f32_at payload 17, f32_at payload 21]"]
        exI [of _ "[f32_at payload 25, f32_at payload 29, f32_at payload 33]"]
        exI [of _ "[f32_at payload 37, f32_at payload 41, f32_at payload 45]"])
      (simp del: append_eq_append_conv)
next
  fix sid acc gyro mag eul
  assume "length acc = 3 \<and> length gyro = 3 \<and> length mag = 3 \<and> length eul = 3 \<and>
    payload = spec_payload sid acc gyro mag eul"
  with assms show "dataQueue (snd (parseResponses clock sched s)) =
      Some (q @ [\<lparr>Time = clock 0, Index = 0, syncAA = 0xAA, syncBB = 0xBB, ID = sid,
                   Acc = map py_float acc, Gyro = map py_float gyro,
                   Mag = map py_float mag, euler = map py_float eul,
                   crc8maxim = crc\<rparr>])"
    by (intro decode_spec_payload [of s d]) simp_all
next
  fix sid acc gyro mag eul
  assume a: "length acc = 3 \<and> length gyro = 3 \<and> length mag = 3 \<and> length eul = 3 \<and>
    payload = spec_payload sid acc gyro mag eul \<and>
    (\<forall>w \<in> set (acc @ gyro @ mag @ eul). \<not> is_snan w)"
  then have "map py_float acc = acc" "map py_float gyro = gyro" "map py_float mag = mag"
    "map py_float eul = eul"
    by (simp_all add: py_float_no_snan)
  moreover from a assms have "dataQueue (snd (parseResponses clock sched s)) =
      Some (q @ [\<lparr>Time = clock 0, Index = 0, syncAA = 0xAA, syncBB = 0xBB, ID = sid,
                   Acc = map py_float acc, Gyro = map py_float gyro,
                   Mag = map py_float mag, euler = map py_float eul,
                   crc8maxim = crc\<rparr>])"
    by (intro decode_spec_payload [of s d]) simp_all
  ultimately show "dataQueue (snd (parseResponses clock sched s)) =
      Some (q @ [\<lparr>Time = clock 0, Index = 0, syncAA = 0xAA, syncBB = 0xBB, ID = sid,
                   Acc = acc, Gyro = gyro, Mag = mag, euler = eul, crc8maxim = crc\<rparr>])"
    by simp
qed

text \<open>
  The values are determined by the payload: the encoding is injective on triples.
\<close>

lemma spec_pack_f32_inject: "spec_pack_f32 v = spec_pack_f32 w \<Longrightarrow> v = w"
proof -
  assume "spec_pack_f32 v = spec_pack_f32 w"
  then have "le_f32 (ucast v) (ucast (drop_bit 8 v)) (ucast (drop_bit 16 v)) (ucast (drop_bit 24 v)) =
      le_f32 (ucast w) (ucast (drop_bit 8 w)) (ucast (drop_bit 16 w)) (ucast (drop_bit 24 w))"
    by (simp add: spec_pack_f32_def)
  then show "v = w"
    by (simp only: le_f32_spec_pack)
qed

text \<open>
  A payload with identifier 7 and twelve different field values, among them 1.0
  (\<^verbatim>\<open>3F800000\<close>), -1.0, 0.1, pi, infinity and a quiet NaN, with checksum byte
  \<^verbatim>\<open>5A\<close>: the message carries each of them in its place.
\<close>

theorem roundtrip_decode_witness:
  "dataQueue (snd (parseResponses example_clock None
       (example_razor (frame_bytes (example_values_payload, 0x5A))))) =
     Some ([] @ [\<lparr>Time = example_clock 0, Index = 0, syncAA = 0xAA, syncBB = 0xBB, ID = 0x07,
                  Acc = [0x3F800000, 0x40000000, 0x40400000],
                  Gyro = [0xBF800000, 0x3F000000, 0x00000000],
                  Mag = [0x42280000, 0xC2280000, 0x3DCCCCCD],
                  euler = [0x40490FDB, 0x7F800000, 0x7FC00000], crc8maxim = 0x5A\<rparr>])"
proof -
  let ?acc = "[0x3F800000, 0x40000000, 0x40400000] :: f32 list"
  let ?gyro = "[0xBF800000, 0x3F000000, 0x00000000] :: f32 list"
  let ?mag = "[0x42280000, 0xC2280000, 0x3DCCCCCD] :: f32 list"
  let ?eul = "[0x40490FDB, 0x7F800000, 0x7FC00000] :: f32 list"
  have "started (example_razor (frame_bytes (example_values_payload, 0x5A)))
      (example_port True (frame_bytes (example_values_payload, 0x5A))) []"
    by (rule example_started)
  moreover have "\<not> exitFlag (example_razor (frame_bytes (example_values_payload, 0x5A)))"
    by (rule example_flag)
  moreover have "clear_polls None 1"
    by (simp add: clear_polls_def)
  moreover have "length example_values_payload = 49"
    by (simp add: example_values_payload_def)
  moreover have "rx (example_port True (frame_bytes (example_values_payload, 0x5A))) =
      frame_bytes (example_values_payload, 0x5A)"
    by (rule example_rx)
  ultimately have all: "\<forall>sid acc gyro mag eul.
      length acc = 3 \<and> length gyro = 3 \<and> length mag = 3 \<and> length eul = 3 \<and>
      example_values_payload = spec_payload sid acc gyro mag eul \<and>
      (\<forall>w \<in> set (acc @ gyro @ mag @ eul). \<not> is_snan w) \<longrightarrow>
      dataQueue (snd (parseResponses example_clock None
          (example_razor (frame_bytes (example_values_payload, 0x5A))))) =
        Some ([] @ [\<lparr>Time = example_clock 0, Index = 0, syncAA = 0xAA, syncBB = 0xBB, ID = sid,
                     Acc = acc, Gyro = gyro, Mag = mag, euler = eul, crc8maxim = 0x5A\<rparr>])"
    using roundtrip_decode [of "example_razor (frame_bytes (example_values_payload, 0x5A))"
        "example_port True (frame_bytes (example_values_payload, 0x5A))" "[]" None
        example_values_payload "0x5A" example_clock]
    by blast
  have enc: "example_values_payload = spec_payload 0x07 ?acc ?gyro ?mag ?eul"
    by code_simp
  have ok: "\<forall>w \<in> set (?acc @ ?gyro @ ?mag @ ?eul). \<not> is_snan w"
    by code_simp
  from all [rule_format, of ?acc ?gyro ?mag ?eul "0x07"] enc ok show ?thesis
    by simp
qed

text \<open>
  The claim as stated fails where a field is a signalling NaN: the payload encodes
  \<^verbatim>\<open>7F800001\<close> as the first acceleration, and the message carries \<^verbatim>\<open>7FC00001\<close>.
\<close>

theorem roundtrip_decode_counterexample:
  "example_snan_payload = spec_payload 0 [0x7F800001, 0, 0] [0, 0, 0] [0, 0, 0] [0, 0, 0] \<and>
   dataQueue (snd (parseResponses example_clock None
       (example_razor (frame_bytes (example_snan_payload, 0))))) =
     Some [\<lparr>Time = example_clock 0, Index = 0, syncAA = 0xAA, syncBB = 0xBB, ID = 0,
            Acc = [0x7FC00001, 0, 0], Gyro = [0, 0, 0], Mag = [0, 0, 0], euler = [0, 0, 0],
            crc8maxim = 0\<rparr>] \<and>
   (0x7FC00001 :: f32) \<noteq> 0x7F800001"
proof -
  have enc: "example_snan_payload = spec_payload 0 [0x7F800001, 0, 0] [0, 0, 0] [0, 0, 0] [0, 0, 0]"
    by code_simp
  have pf: "map py_float [0x7F800001, 0, 0] = [0x7FC00001, 0, 0]"
    "map py_float [0, 0, 0] = [0, 0, 0]"
    by code_simp+
  have "dataQueue (snd (parseResponses example_clock None
       (example_razor (frame_bytes (spec_payload 0 [0x7F800001, 0, 0] [0, 0, 0] [0, 0, 0] [0, 0, 0], 0))))) =
     Some ([] @ [\<lparr>Time = example_clock 0, Index = 0, syncAA = 0xAA, syncBB = 0xBB, ID = 0,
            Acc = map py_float [0x7F800001, 0, 0], Gyro = map py_float [0, 0, 0],
            Mag = map py_float [0, 0, 0], euler = map py_float [0, 0, 0], crc8maxim = 0\<rparr>])"
    by (rule decode_spec_payload [OF example_started example_flag])
      (simp_all add: clear_polls_def example_rx)
  then show ?thesis
    unfolding pf enc [symmetric] using enc by simp
qed

section \<open>The drop policy of the second sync byte (C2)\<close>

text \<open>
  C2. When the loop has read \<^verbatim>\<open>0xAA\<close> and the next byte \<open>b\<close> is not \<^verbatim>\<open>0xBB\<close>, the pass
  ends with both bytes consumed and nothing else changed: the next pass starts at the
  byte after \<open>b\<close>, so \<open>b\<close> is never examined as a first sync byte, whatever its value.
  In particular, from the stream \<^verbatim>\<open>0xAA\<close>, \<^verbatim>\<open>0xAA\<close>, \<^verbatim>\<open>0xBB\<close>, 49 payload bytes and a
  checksum byte no message is put into the queue, for every payload, every checksum
  byte and every moment at which the flag is set.
\<close>

theorem sync_b_drop:
  "(device s = Some d \<and> is_open d \<and> rx d = 0xAA # b # rest \<and> b \<noteq> 0xBB \<longrightarrow>
      loop_body clock s index = (None, s\<lparr>device := Some (d\<lparr>rx := rest\<rparr>)\<rparr>, index)) \<and>
   (started s' d' q \<and> length payload = 49 \<and> rx d' = 0xAA # frame_bytes (payload, crc) \<longrightarrow>
      dataQueue (snd (parseResponses clock sched s')) = Some q)"
proof (intro conjI impI)
  assume "device s = Some d \<and> is_open d \<and> rx d = 0xAA # b # rest \<and> b \<noteq> 0xBB"
  then show "loop_body clock s index = (None, s\<lparr>device := Some (d\<lparr>rx := rest\<rparr>)\<rparr>, index)"
    using loop_body_false_start [of s d b rest clock index] by simp
next
  assume a: "started s' d' q \<and> length payload = 49 \<and> rx d' = 0xAA # frame_bytes (payload, crc)"
  then obtain l where l: "log s' = Some l" and o: "isOpen s'"
    and d: "device s' = Some d'" "is_open d'" and q: "dataQueue s' = Some q"
    by (auto simp: started_def)
  let ?s = "s'\<lparr>log := Some (l @ [(INFO, ''Entering Thread logger'', NoArg)])\<rparr>"
  have "dataQueue (snd (parse_loop clock sched ?s 0)) = Some q"
  proof (cases "exitFlag s' \<or> sched = Some 0")
    case True
    with q show ?thesis
      by (auto simp: parse_loop_set parse_loop_cancel)
  next
    case False
    let ?rest = "0xBB # payload @ [crc]"
    from a have "rx d' = 0xAA # 0xAA # ?rest"
      by (simp add: frame_bytes_def)
    with d False have "parse_loop clock sched ?s 0 =
        parse_loop clock (map_option (\<lambda>k. k - 1) sched) (?s\<lparr>device := Some (d'\<lparr>rx := ?rest\<rparr>)\<rparr>) 0"
      using parse_loop_false_start [of ?s d' "0xAA" ?rest sched clock 0] by simp
    moreover have "dataQueue (snd (parse_loop clock (map_option (\<lambda>k. k - 1) sched)
        (?s\<lparr>device := Some (d'\<lparr>rx := ?rest\<rparr>)\<rparr>) 0)) = Some q"
      using a q by (subst parse_loop_short) (simp_all add: pending_def)
    ultimately show ?thesis
      by simp
  qed
  with parseResponses_queue [OF l o] show "dataQueue (snd (parseResponses clock sched s')) = Some q"
    by simp
qed

text \<open>
  The second \<^verbatim>\<open>0xAA\<close> of \<^verbatim>\<open>AA AA BB\<close> is dropped, and the full stream over an
  all-zero payload leaves the queue empty.
\<close>

theorem sync_b_drop_witness:
  "loop_body example_clock (example_razor [0xAA, 0xAA, 0xBB]) 0 =
     (None, (example_razor [0xAA, 0xAA, 0xBB])
        \<lparr>device := Some ((example_port True [0xAA, 0xAA, 0xBB])\<lparr>rx := [0xBB]\<rparr>)\<rparr>, 0) \<and>
   dataQueue (snd (parseResponses example_clock None
     (example_razor (0xAA # frame_bytes (example_payload, 7))))) = Some []"
proof -
  have "device (example_razor [0xAA, 0xAA, 0xBB]) = Some (example_port True [0xAA, 0xAA, 0xBB]) \<and>
      is_open (example_port True [0xAA, 0xAA, 0xBB]) \<and>
      rx (example_port True [0xAA, 0xAA, 0xBB]) = 0xAA # 0xAA # [0xBB] \<and> (0xAA :: byte) \<noteq> 0xBB"
    by (simp add: example_razor_def example_port_def)
  moreover have "started (example_razor (0xAA # frame_bytes (example_payload, 7)))
      (example_port True (0xAA # frame_bytes (example_payload, 7))) [] \<and>
      length example_payload = 49 \<and>
      rx (example_port True (0xAA # frame_bytes (example_payload, 7))) =
        0xAA # frame_bytes (example_payload, 7)"
    by (simp add: example_started example_length example_rx)
  ultimately show ?thesis
    using sync_b_drop [of "example_razor [0xAA, 0xAA, 0xBB]" "example_port True [0xAA, 0xAA, 0xBB]"
      "0xAA" "[0xBB]" example_clock 0
      "example_razor (0xAA # frame_bytes (example_payload, 7))"
      "example_port True (0xAA # frame_bytes (example_payload, 7))" "[]" example_payload 7 None]
    by blast
qed

section \<open>Resynchronisation after noise (C3)\<close>

text \<open>
  C3. A pass that reads a byte other than \<^verbatim>\<open>0xAA\<close> consumes that one byte and changes
  nothing else. With the flag clear at the first three polls, the stream \<^verbatim>\<open>0x00\<close>,
  \<^verbatim>\<open>0x11\<close> followed by a frame puts exactly one message into the queue, and the queue
  is the same as after decoding the frame alone (same clock, flag clear at the first
  poll): the two noise bytes leave no trace.
\<close>

theorem resync_after_noise:
  "(device s = Some d \<and> is_open d \<and> rx d = b # rest \<and> b \<noteq> 0xAA \<longrightarrow>
      loop_body clock s index = (None, s\<lparr>device := Some (d\<lparr>rx := rest\<rparr>)\<rparr>, index)) \<and>
   (started s' d' q \<and> \<not> exitFlag s' \<and> clear_polls sched 3 \<and> clear_polls sched' 1 \<and>
    length payload = 49 \<and> rx d' = 0x00 # 0x11 # frame_bytes (payload, crc) \<longrightarrow>
      (\<exists>m. dataQueue (snd (parseResponses clock sched s')) = Some (q @ [m])) \<and>
      dataQueue (snd (parseResponses clock sched s')) =
        dataQueue (snd (parseResponses clock sched'
          (s'\<lparr>device := Some (d'\<lparr>rx := frame_bytes (payload, crc)\<rparr>)\<rparr>))))"
proof (intro conjI impI)
  assume "device s = Some d \<and> is_open d \<and> rx d = b # rest \<and> b \<noteq> 0xAA"
  then show "loop_body clock s index = (None, s\<lparr>device := Some (d\<lparr>rx := rest\<rparr>)\<rparr>, index)"
    using loop_body_noise [of s d b rest clock index] by simp
next
  assume a: "started s' d' q \<and> \<not> exitFlag s' \<and> clear_polls sched 3 \<and> clear_polls sched' 1 \<and>
    length payload = 49 \<and> rx d' = 0x00 # 0x11 # frame_bytes (payload, crc)"
  then obtain l where l: "log s' = Some l" and o: "isOpen s'"
    and d: "device s' = Some d'" "is_open d'" and q: "dataQueue s' = Some q"
    by (auto simp: started_def)
  let ?enter = "\<lambda>s. s\<lparr>log := Some (l @ [(INFO, ''Entering Thread logger'', NoArg)])\<rparr>"
  let ?d1 = "d'\<lparr>rx := 0x11 # frame_bytes (payload, crc)\<rparr>"
  let ?d2 = "d'\<lparr>rx := frame_bytes (payload, crc)\<rparr>"
  let ?clean = "s'\<lparr>device := Some ?d2\<rparr>"
  let ?sched1 = "map_option (\<lambda>k. k - 1) sched"
  let ?sched2 = "map_option (\<lambda>k. k - 1) ?sched1"
  from a have s0: "sched \<noteq> Some 0" and c1: "clear_polls ?sched1 2"
    using clear_polls_Suc [of sched 2] by (simp_all add: numeral_3_eq_3 numeral_2_eq_2)
  from c1 have s1: "?sched1 \<noteq> Some 0" and c2: "clear_polls ?sched2 1"
    using clear_polls_Suc [of ?sched1 1] by (simp_all add: numeral_2_eq_2)
  have len: "length (payload @ [crc]) = 50"
    using a by simp
  from unpack_frame_50 [OF len] obtain m where
    m: "unpack_frame (clock 0) 0 0xAA 0xBB (payload @ [crc]) = Inr m"
    by blast
  have st: "started ?clean ?d2 q" "\<not> exitFlag ?clean" "length payload = 49"
    "rx ?d2 = frame_bytes (payload, crc)"
    using a by (simp_all add: started_def)
  have clean: "dataQueue (snd (parseResponses clock sch ?clean)) = Some (q @ [m])"
    if "clear_polls sch 1" for sch
    using st(1,2) that st(3,4) m by (rule single_frame_queue)
  have "parse_loop clock sched (?enter s') 0 =
      parse_loop clock ?sched1 ((?enter s')\<lparr>device := Some ?d1\<rparr>) 0"
    using parse_loop_noise [of "?enter s'" d' "0x00" "0x11 # frame_bytes (payload, crc)" sched clock 0]
      d a s0 by simp
  also have "\<dots> = parse_loop clock ?sched2 ((?enter s')\<lparr>device := Some ?d2\<rparr>) 0"
    using parse_loop_noise [of "(?enter s')\<lparr>device := Some ?d1\<rparr>" ?d1 "0x11"
        "frame_bytes (payload, crc)" ?sched1 clock 0]
      d a s1 by simp
  finally have "dataQueue (snd (parseResponses clock sched s')) =
      dataQueue (snd (parse_loop clock ?sched2 ((?enter s')\<lparr>device := Some ?d2\<rparr>) 0))"
    using parseResponses_queue [OF l o, of clock sched] by simp
  also have "(?enter s')\<lparr>device := Some ?d2\<rparr> = ?enter ?clean"
    by (cases s') simp
  also have "dataQueue (snd (parse_loop clock ?sched2 (?enter ?clean) 0)) =
      dataQueue (snd (parseResponses clock ?sched2 ?clean))"
    using parseResponses_queue [of ?clean l clock ?sched2] l o by simp
  finally have noisy: "dataQueue (snd (parseResponses clock sched s')) = Some (q @ [m])"
    using clean [OF c2] by simp
  then show "\<exists>m. dataQueue (snd (parseResponses clock sched s')) = Some (q @ [m])"
    by blast
  from a have "clear_polls sched' 1"
    by simp
  from noisy clean [OF this] show "dataQueue (snd (parseResponses clock sched s')) =
        dataQueue (snd (parseResponses clock sched'
          (s'\<lparr>device := Some (d'\<lparr>rx := frame_bytes (payload, crc)\<rparr>)\<rparr>)))"
    by simp
qed

text \<open>A noise byte before a sync byte, and two noise bytes before an all-zero frame.\<close>

theorem resync_after_noise_witness:
  "loop_body example_clock (example_razor [0x11, 0xAA]) 0 =
     (None, (example_razor [0x11, 0xAA])
        \<lparr>device := Some ((example_port True [0x11, 0xAA])\<lparr>rx := [0xAA]\<rparr>)\<rparr>, 0) \<and>
   (\<exists>m. dataQueue (snd (parseResponses example_clock None
      (example_razor (0x00 # 0x11 # frame_bytes (example_payload, 7))))) = Some ([] @ [m])) \<and>
   dataQueue (snd (parseResponses example_clock None
      (example_razor (0x00 # 0x11 # frame_bytes (example_payload, 7))))) =
     dataQueue (snd (parseResponses example_clock (Some 1)
       ((example_razor (0x00 # 0x11 # frame_bytes (example_payload, 7)))
          \<lparr>device := Some ((example_port True (0x00 # 0x11 # frame_bytes (example_payload, 7)))
             \<lparr>rx := frame_bytes (example_payload, 7)\<rparr>)\<rparr>)))"
proof -
  have "device (example_razor [0x11, 0xAA]) = Some (example_port True [0x11, 0xAA]) \<and>
      is_open (example_port True [0x11, 0xAA]) \<and>
      rx (example_port True [0x11, 0xAA]) = 0x11 # [0xAA] \<and> (0x11 :: byte) \<noteq> 0xAA"
    by (simp add: example_razor_def example_port_def)
  moreover have "started (example_razor (0x00 # 0x11 # frame_bytes (example_payload, 7)))
      (example_port True (0x00 # 0x11 # frame_bytes (example_payload, 7))) [] \<and>
      \<not> exitFlag (example_razor (0x00 # 0x11 # frame_bytes (example_payload, 7))) \<and>
      clear_polls None 3 \<and> clear_polls (Some 1) 1 \<and> length example_payload = 49 \<and>
      rx (example_port True (0x00 # 0x11 # frame_bytes (example_payload, 7))) =
        0x00 # 0x11 # frame_bytes (example_payload, 7)"
    by (simp add: example_started example_length example_rx example_flag clear_polls_def)
  ultimately show ?thesis
    using resync_after_noise [of "example_razor [0x11, 0xAA]" "example_port True [0x11, 0xAA]"
      "0x11" "[0xAA]" example_clock 0
      "example_razor (0x00 # 0x11 # frame_bytes (example_payload, 7))"
      "example_port True (0x00 # 0x11 # frame_bytes (example_payload, 7))" "[]" None "Some 1"
      example_payload 7]
    by blast
qed

section \<open>No rejection on the checksum (C4)\<close>

text \<open>
  C4. Whenever the port delivers the two sync bytes and 50 more bytes, the pass puts
  the message into the queue and advances the index, for every value \<open>c\<close> of the last
  byte: the checksum field of the message is \<open>c\<close> itself, also when \<open>c\<close> differs from
  the CRC-8/MAXIM value of the 49 payload bytes. The loop never computes that value.
\<close>

theorem no_crc_rejection:
  assumes "started s d q" "length payload = 49" "rx d = frame_bytes (payload, c) @ rest"
  shows "\<exists>m. loop_body clock s index =
           (None, s\<lparr>device := Some (d\<lparr>rx := rest\<rparr>), dataQueue := Some (q @ [m])\<rparr>, Suc index) \<and>
         crc8maxim m = c \<and> (c \<noteq> crc8_value payload \<longrightarrow> crc8maxim m \<noteq> crc8_value payload)"
proof -
  from assms(2) have len: "length (payload @ [c]) = 50"
    by simp
  from unpack_frame_50 [OF len] obtain m where
    m: "unpack_frame (clock index) index 0xAA 0xBB (payload @ [c]) = Inr m" and "crc8maxim m = c"
    using assms(2) by (auto simp: nth_append)
  moreover from assms have "device s = Some d" "is_open d" "dataQueue s = Some q"
    "rx d = 0xAA # 0xBB # (payload @ [c]) @ rest"
    by (simp_all add: started_def frame_bytes_def)
  then have "loop_body clock s index =
      (None, s\<lparr>device := Some (d\<lparr>rx := rest\<rparr>), dataQueue := Some (q @ [m])\<rparr>, Suc index)"
    using len m by (intro loop_body_frame [of s d "payload @ [c]" rest q clock index m])
  ultimately show ?thesis
    by blast
qed

text \<open>
  A frame over the all-zero payload with checksum byte 1, where the CRC is 0, followed
  by one more byte: the message is put with checksum 1.
\<close>

theorem no_crc_rejection_witness:
  "\<exists>m. loop_body example_clock (example_razor (frame_bytes (example_payload, 1) @ [0x55])) 0 =
       (None, (example_razor (frame_bytes (example_payload, 1) @ [0x55]))
          \<lparr>device := Some ((example_port True (frame_bytes (example_payload, 1) @ [0x55]))\<lparr>rx := [0x55]\<rparr>),
           dataQueue := Some ([] @ [m])\<rparr>, Suc 0) \<and>
     crc8maxim m = 1 \<and> crc8maxim m \<noteq> crc8_value example_payload"
proof -
  have "(1 :: byte) \<noteq> crc8_value example_payload"
    by (simp add: example_payload_def crc8_value_zeros)
  moreover have "rx (example_port True (frame_bytes (example_payload, 1) @ [0x55])) =
      frame_bytes (example_payload, 1) @ [0x55]"
    by (rule example_rx)
  ultimately show ?thesis
    using no_crc_rejection [OF example_started example_length, of _ 1 "[0x55]" example_clock 0]
    by blast
qed

section \<open>Sequential indexing and order (C5)\<close>

text \<open>
  C5. The port delivers \<open>N\<close> well-formed frames one after the other, and the flag is
  clear at the first \<open>N\<close> polls. Then the queue receives exactly \<open>N\<close> messages after
  those it held; their \<open>Index\<close> fields are \<open>0, 1, ..., N - 1\<close> in this order, and the
  \<open>k\<close>-th message is the decoding of the \<open>k\<close>-th frame of the stream under index \<open>k\<close>.
\<close>

theorem sequential_indexing:
  assumes "started s d q" "\<not> exitFlag s" "clear_polls sched (length frames)"
    "\<forall>f \<in> set frames. length (fst f) = 49" "rx d = concat (map frame_bytes frames)"
  shows "\<exists>msgs. dataQueue (snd (parseResponses clock sched s)) = Some (q @ msgs) \<and>
           map Index msgs = [0..<length frames] \<and>
           map Inr msgs =
             map (\<lambda>(i, f). unpack_frame (clock i) i 0xAA 0xBB (fst f @ [snd f])) (enumerate 0 frames)"
proof -
  from frames_queue [OF assms] obtain msgs where
    q: "dataQueue (snd (parseResponses clock sched s)) = Some (q @ msgs)" and
    m: "map Inr msgs =
          map (\<lambda>(i, f). unpack_frame (clock i) i 0xAA 0xBB (fst f @ [snd f])) (enumerate 0 frames)"
    by blast
  have "length (map (Inr :: message \<Rightarrow> error + message) msgs) =
      length (map (\<lambda>(i, f). unpack_frame (clock i) i 0xAA 0xBB (fst f @ [snd f])) (enumerate 0 frames))"
    by (simp only: m)
  then have len: "length msgs = length frames"
    by simp
  have "Index (msgs ! k) = k" if "k < length frames" for k
  proof -
    from m have "map Inr msgs ! k =
        map (\<lambda>(i, f). unpack_frame (clock i) i 0xAA 0xBB (fst f @ [snd f])) (enumerate 0 frames) ! k"
      by simp
    with that len have "unpack_frame (clock k) k 0xAA 0xBB (fst (frames ! k) @ [snd (frames ! k)]) =
        Inr (msgs ! k)"
      by (simp add: nth_enumerate_eq)
    then show ?thesis
      by (rule unpack_frame_Index)
  qed
  with len have "map Index msgs = [0..<length frames]"
    by (intro nth_equalityI) simp_all
  with q m show ?thesis
    by blast
qed

text \<open>Two frames that differ in their checksum byte.\<close>

theorem sequential_indexing_witness:
  "\<exists>msgs. dataQueue (snd (parseResponses example_clock None
       (example_razor (concat (map frame_bytes [(example_payload, 1), (example_payload, 2)]))))) =
       Some ([] @ msgs) \<and>
     map Index msgs = [0..<length [(example_payload, 1 :: byte), (example_payload, 2)]] \<and>
     map Inr msgs =
       map (\<lambda>(i, f). unpack_frame (example_clock i) i 0xAA 0xBB (fst f @ [snd f]))
         (enumerate 0 [(example_payload, 1), (example_payload, 2)])"
proof -
  let ?frames = "[(example_payload, 1 :: byte), (example_payload, 2)]"
  have "started (example_razor (concat (map frame_bytes ?frames)))
      (example_port True (concat (map frame_bytes ?frames))) []"
    by (simp add: started_def example_razor_def example_port_def)
  moreover have "\<not> exitFlag (example_razor (concat (map frame_bytes ?frames)))"
    by (simp add: example_razor_def)
  moreover have "clear_polls None (length ?frames)"
    by (simp add: clear_polls_def)
  moreover have "\<forall>f \<in> set ?frames. length (fst f) = 49"
    by (simp add: example_payload_def)
  moreover have "rx (example_port True (concat (map frame_bytes ?frames))) =
      concat (map frame_bytes ?frames)"
    by (simp add: example_port_def)
  ultimately show ?thesis
    by (rule sequential_indexing)
qed

section \<open>Fifty-two bytes per frame (C6)\<close>

text \<open>
  C6. A pass of the loop that puts a message into the queue has consumed exactly 52
  bytes of the port: the byte \<^verbatim>\<open>0xAA\<close> of the first read, the byte \<^verbatim>\<open>0xBB\<close> of the
  second read, and the 50 bytes of the body read (49 payload bytes and the checksum
  byte). It has raised nothing and has advanced the index by one.
\<close>

theorem frame_consumes_52:
  assumes "loop_body clock s index = (r, s1, index1)" "dataQueue s1 \<noteq> dataQueue s"
  shows "\<exists>d d1 body. device s = Some d \<and> device s1 = Some d1 \<and>
           rx d = 0xAA # 0xBB # body @ rx d1 \<and> length body = 50 \<and>
           length (rx d) = length (rx d1) + 52 \<and> r = None \<and> index1 = Suc index"
proof -
  from loop_body_cases [OF assms(1)] assms(2) obtain d d1 body where
    "device s = Some d" "device s1 = Some d1" "rx d = 0xAA # 0xBB # body @ rx d1"
    "length body = 50" "r = None" "index1 = Suc index"
    by blast
  moreover from this have "length (rx d) = length (rx d1) + 52"
    by simp
  ultimately show ?thesis
    by blast
qed

text \<open>The pass over one all-zero frame.\<close>

theorem frame_consumes_52_witness:
  "\<exists>d d1 body. device (example_razor example_frame) = Some d \<and>
     device ((example_razor example_frame)\<lparr>device := Some (example_port True []),
        dataQueue := Some [example_message]\<rparr>) = Some d1 \<and>
     rx d = 0xAA # 0xBB # body @ rx d1 \<and> length body = 50 \<and>
     length (rx d) = length (rx d1) + 52 \<and> (None :: error option) = None \<and> (1 :: nat) = Suc 0"
proof -
  have "dataQueue ((example_razor example_frame)\<lparr>device := Some (example_port True []),
        dataQueue := Some [example_message]\<rparr>) \<noteq> dataQueue (example_razor example_frame)"
    by (simp add: example_razor_def)
  with example_loop_body show ?thesis
    by (rule frame_consumes_52)
qed

section \<open>Read errors (C7)\<close>

text \<open>
  No path of \<^verbatim>\<open>parseResponses\<close> or \<^verbatim>\<open>shutdown\<close> writes the field \<open>openError\<close>, which
  the constructor introduces with the comment
  \<^verbatim>\<open>if any error during any process occurs this will be set\<close>.
\<close>

lemma parse_loop_openError: "openError (snd (parse_loop clock sched s index)) = openError s"
proof (induction "pending s" arbitrary: s index sched rule: less_induct)
  case less
  show ?case
  proof (cases "exitFlag s \<or> sched = Some 0")
    case True
    then show ?thesis
      by (auto simp: parse_loop_set parse_loop_cancel)
  next
    case False
    obtain r s1 i1 where b: "loop_body clock s index = (r, s1, i1)"
      by (cases "loop_body clock s index")
    from loop_body_other_fields [OF b] have o: "openError s1 = openError s"
      by simp
    show ?thesis
    proof (cases r)
      case None
      with b have "pending s1 < pending s"
        by (auto dest: loop_body_pending)
      with less.hyps [of s1] o None b False show ?thesis
        by (simp add: parse_loop_step)
    next
      case (Some e)
      with b False o show ?thesis
        by (simp add: parse_loop_raise)
    qed
  qed
qed

lemma parseResponses_openError: "openError (snd (parseResponses clock sched s)) = openError s"
proof (cases "log s")
  case None
  then show ?thesis
    by (simp add: parseResponses_def logging_def)
next
  case (Some l)
  let ?s = "s\<lparr>log := Some (l @ [(INFO, ''Entering Thread logger'', NoArg)])\<rparr>"
  have "openError (snd (parse_loop clock sched ?s 0)) = openError s"
    by (simp add: parse_loop_openError)
  with Some show ?thesis
    by (auto simp: parseResponses_def logging_def split: prod.splits outcome.splits option.splits)
qed

lemma shutdown_openError: "openError (snd (shutdown s)) = openError s"
  by (simp add: shutdown_def logging_def Let_def split: option.splits)

text \<open>
  C7. The claim asks that a read error which ends the decode loop reaches the caller of
  the lifecycle as a distinct error. The code does not do that. The port delivers
  \<^verbatim>\<open>0xAA\<close>, \<^verbatim>\<open>0xBB\<close>, \<^verbatim>\<open>0x01\<close> and the link breaks: the read of the body raises, the
  exception leaves \<^verbatim>\<open>parseResponses\<close> inside the decoder thread, \<open>openError\<close> is
  still 0, and \<^verbatim>\<open>shutdown\<close> returns \<open>True\<close> with \<open>openError\<close> still 0, the same
  answer it gives after a run that was cancelled before its first read.
\<close>

theorem io_error_failing_input:
  "fst (parseResponses example_clock None (example_razor [0xAA, 0xBB, 1])) = Raised SerialException \<and>
   openError (snd (parseResponses example_clock None (example_razor [0xAA, 0xBB, 1]))) = 0 \<and>
   fst (shutdown (snd (parseResponses example_clock None (example_razor [0xAA, 0xBB, 1])))) =
     Returned True \<and>
   openError (snd (shutdown (snd (parseResponses example_clock None
     (example_razor [0xAA, 0xBB, 1]))))) = 0 \<and>
   fst (shutdown (snd (parseResponses example_clock (Some 0) (example_razor [0xAA, 0xBB, 1])))) =
     Returned True"
  by code_simp

section \<open>Setup failure (C8)\<close>

text \<open>
  C8. If the port path does not exist, \<^verbatim>\<open>begin\<close> returns \<open>False\<close> at once: the object
  is as before but for the logger and its one warning, so no thread is started
  (\<open>threadID\<close> is untouched), no port is constructed and no byte is read. If the path
  exists and the constructed port \<open>d\<close> is not open, \<^verbatim>\<open>begin\<close> stores the port as it
  was constructed (its \<open>rx\<close> unread), sets \<open>isOpen\<close> to \<open>False\<close>, logs a warning and
  returns \<open>False\<close>, again without starting the thread.
\<close>

theorem begin_setup_failure:
  "(\<not> path_exists com_port \<longrightarrow>
      begin_razor path_exists Serial s data_queue com_port baud_rate =
        (Returned False,
         s\<lparr>log := Some ((case log s of None \<Rightarrow> [] | Some l \<Rightarrow> l) @
                 [(WARNING, ''Port is not available: {0}'', StrArg com_port)])\<rparr>)) \<and>
   (path_exists com_port \<and> Serial com_port baud_rate = Inr d \<and> \<not> is_open d \<longrightarrow>
      begin_razor path_exists Serial s data_queue com_port baud_rate =
        (Returned False,
         s\<lparr>device := Some d, isOpen := False,
           log := Some ((case log s of None \<Rightarrow> [] | Some l \<Rightarrow> l) @
                 [(WARNING, ''Error opening port: {0}'', StrArg com_port)])\<rparr>))"
  by (simp add: begin_razor_def logging_def Let_def)

text \<open>Both failures on a fresh object: a missing path, and a port that is not open.\<close>

theorem begin_setup_failure_witness:
  "begin_razor (\<lambda>p. False) (\<lambda>p b. Inr (example_port True [0xAA])) (init ''RazorIMU 1'') []
       ''/dev/ttyUSB0'' 500000 =
     (Returned False,
      (init ''RazorIMU 1'')\<lparr>log := Some [(WARNING, ''Port is not available: {0}'', StrArg ''/dev/ttyUSB0'')]\<rparr>) \<and>
   begin_razor (\<lambda>p. True) (\<lambda>p b. Inr (example_port False [0xAA])) (init ''RazorIMU 1'') []
       ''/dev/ttyUSB0'' 500000 =
     (Returned False,
      (init ''RazorIMU 1'')\<lparr>device := Some (example_port False [0xAA]), isOpen := False,
         log := Some [(WARNING, ''Error opening port: {0}'', StrArg ''/dev/ttyUSB0'')]\<rparr>)"
  using begin_setup_failure [of "\<lambda>p. False" "''/dev/ttyUSB0''" "\<lambda>p b. Inr (example_port True [0xAA])"
      "init ''RazorIMU 1''" "[]" 500000]
    begin_setup_failure [of "\<lambda>p. True" "''/dev/ttyUSB0''" "\<lambda>p b. Inr (example_port False [0xAA])"
      "init ''RazorIMU 1''" "[]" 500000 "example_port False [0xAA]"]
  by (simp add: init_def example_port_def)

section \<open>Cancellation (C9)\<close>

text \<open>
  C9. The flag is polled once per pass, before the first read. A poll that finds the
  flag set ends the loop with the object untouched: no byte is read and no message is
  put; this is also so when the flag has been set just before the poll. A poll that
  finds it clear is followed by exactly one pass of the body and then by the next poll. Hence setting the flag one pass later (after \<open>k + 1\<close> clear polls
  instead of \<open>k\<close>) adds at most one message to the queue: at most one message is put
  after the flag has been set.
\<close>

theorem cancellation_granularity:
  "(exitFlag s \<longrightarrow> parse_loop clock sched s index = (Returned (), s)) \<and>
   parse_loop clock (Some 0) s index = (Returned (), s\<lparr>exitFlag := True\<rparr>) \<and>
   (\<not> exitFlag s \<and> sched \<noteq> Some 0 \<longrightarrow>
      parse_loop clock sched s index =
        (case loop_body clock s index of
           (Some e, s1, index1) \<Rightarrow> (Raised e, s1)
         | (None, s1, index1) \<Rightarrow> parse_loop clock (map_option (\<lambda>k. k - 1) sched) s1 index1)) \<and>
   (dataQueue (snd (parse_loop clock (Some (Suc k)) s index)) =
      dataQueue (snd (parse_loop clock (Some k) s index)) \<or>
    (\<exists>q m. dataQueue (snd (parse_loop clock (Some k) s index)) = Some q \<and>
       dataQueue (snd (parse_loop clock (Some (Suc k)) s index)) = Some (q @ [m])))"
proof (intro conjI)
  show "exitFlag s \<longrightarrow> parse_loop clock sched s index = (Returned (), s)"
    by (simp add: parse_loop_set)
next
  show "parse_loop clock (Some 0) s index = (Returned (), s\<lparr>exitFlag := True\<rparr>)"
    by (rule parse_loop_cancel)
next
  show "\<not> exitFlag s \<and> sched \<noteq> Some 0 \<longrightarrow>
      parse_loop clock sched s index =
        (case loop_body clock s index of
           (Some e, s1, index1) \<Rightarrow> (Raised e, s1)
         | (None, s1, index1) \<Rightarrow> parse_loop clock (map_option (\<lambda>k. k - 1) sched) s1 index1)"
    by (subst parse_loop.simps) simp
next
  show "dataQueue (snd (parse_loop clock (Some (Suc k)) s index)) =
      dataQueue (snd (parse_loop clock (Some k) s index)) \<or>
    (\<exists>q m. dataQueue (snd (parse_loop clock (Some k) s index)) = Some q \<and>
       dataQueue (snd (parse_loop clock (Some (Suc k)) s index)) = Some (q @ [m]))"
  proof (induction k arbitrary: s index)
    case 0
    obtain r s1 i1 where b: "loop_body clock s index = (r, s1, i1)"
      by (cases "loop_body clock s index")
    show ?case
    proof (cases "exitFlag s")
      case True
      then show ?thesis
        by (simp add: parse_loop_set parse_loop_cancel)
    next
      case False
      have "dataQueue (snd (parse_loop clock (Some (Suc 0)) s index)) = dataQueue s1"
      proof (cases r)
        case None
        with b False show ?thesis
          by (simp add: parse_loop_step parse_loop_cancel)
      next
        case (Some e)
        with b False show ?thesis
          by (simp add: parse_loop_raise)
      qed
      with loop_body_cases [OF b] show ?thesis
        by (auto simp: parse_loop_cancel)
    qed
  next
    case (Suc k)
    obtain r s1 i1 where b: "loop_body clock s index = (r, s1, i1)"
      by (cases "loop_body clock s index")
    show ?case
    proof (cases "exitFlag s")
      case True
      then show ?thesis
        by (simp add: parse_loop_set)
    next
      case False
      show ?thesis
      proof (cases r)
        case None
        with b False have "parse_loop clock (Some (Suc (Suc k))) s index =
            parse_loop clock (Some (Suc k)) s1 i1"
          "parse_loop clock (Some (Suc k)) s index = parse_loop clock (Some k) s1 i1"
          by (simp_all add: parse_loop_step)
        with Suc.IH [of s1 i1] show ?thesis
          by simp
      next
        case (Some e)
        with b False show ?thesis
          by (simp add: parse_loop_raise)
      qed
    qed
  qed
qed

text \<open>
  A loop entered with the flag set, and the loop over one frame cancelled before the
  first and before the second poll.
\<close>

theorem cancellation_granularity_witness:
  "parse_loop example_clock None ((example_razor example_frame)\<lparr>exitFlag := True\<rparr>) 0 =
     (Returned (), (example_razor example_frame)\<lparr>exitFlag := True\<rparr>) \<and>
   parse_loop example_clock (Some 0) (example_razor example_frame) 0 =
     (Returned (), (example_razor example_frame)\<lparr>exitFlag := True\<rparr>) \<and>
   parse_loop example_clock None (example_razor example_frame) 0 =
     (case loop_body example_clock (example_razor example_frame) 0 of
        (Some e, s1, index1) \<Rightarrow> (Raised e, s1)
      | (None, s1, index1) \<Rightarrow> parse_loop example_clock (map_option (\<lambda>k. k - 1) None) s1 index1) \<and>
   (dataQueue (snd (parse_loop example_clock (Some (Suc 0)) (example_razor example_frame) 0)) =
      dataQueue (snd (parse_loop example_clock (Some 0) (example_razor example_frame) 0)) \<or>
    (\<exists>q m. dataQueue (snd (parse_loop example_clock (Some 0) (example_razor example_frame) 0)) =
         Some q \<and>
       dataQueue (snd (parse_loop example_clock (Some (Suc 0)) (example_razor example_frame) 0)) =
         Some (q @ [m])))"
proof -
  have "exitFlag ((example_razor example_frame)\<lparr>exitFlag := True\<rparr>)"
    by simp
  moreover have "\<not> exitFlag (example_razor example_frame) \<and> (None :: nat option) \<noteq> Some 0"
    by (simp add: example_flag)
  ultimately show ?thesis
    using cancellation_granularity [of "(example_razor example_frame)\<lparr>exitFlag := True\<rparr>"
        example_clock None 0 0]
      cancellation_granularity [of "example_razor example_frame" example_clock None 0 0]
    by blast
qed

section \<open>The guard on a port that is not open (C10)\<close>

text \<open>
  With the logger obtained, a call of \<^verbatim>\<open>parseResponses\<close> while \<open>isOpen\<close> is false takes
  the guard: it returns at once, having appended three log records and changed nothing
  else, so no byte is read and no message is put.
\<close>

lemma closed_port_guard_with_logger:
  "\<not> isOpen s \<Longrightarrow> log s = Some l \<Longrightarrow>
   parseResponses clock sched s =
     (Returned (),
      s\<lparr>log := Some (l @ [(INFO, ''Entering Thread logger'', NoArg),
                          (WARNING, ''Port is not open: {0}'', DeviceArg (device s)),
                          (INFO, ''Exiting Thread logger'', NoArg)])\<rparr>)"
  by (simp add: parseResponses_def logging_def)

text \<open>
  C10. The claim asks that \<^verbatim>\<open>parseResponses\<close>, called while the port is not open,
  returns at once without a read, a put or a change of state. On a freshly constructed
  object the code does not return: \<open>isOpen\<close> is false, \<open>log\<close> is still \<open>None\<close>, and the
  call \<^verbatim>\<open>self.log.info("Entering Thread logger")\<close> ahead of the guard raises. The object
  is left as it was. The same object with a logger takes the guard and returns.
\<close>

theorem closed_port_guard_fresh_object:
  "\<not> isOpen (init ''RazorIMU 1'') \<and>
   parseResponses example_clock None (init ''RazorIMU 1'') =
     (Raised AttributeError, init ''RazorIMU 1'') \<and>
   parseResponses example_clock None ((init ''RazorIMU 1'')\<lparr>log := Some []\<rparr>) =
     (Returned (),
      (init ''RazorIMU 1'')\<lparr>log := Some [(INFO, ''Entering Thread logger'', NoArg),
                               (WARNING, ''Port is not open: {0}'', DeviceArg None),
                               (INFO, ''Exiting Thread logger'', NoArg)]\<rparr>)"
  by (simp add: parseResponses_def logging_def init_def)

end
